theory Spec2Isabelle
  imports Main
begin

section \<open>RoExport: the script parser of \<^verbatim>\<open>roexport/parser.py\<close>\<close>

text \<open>
  The parser walks a decoded XML tree (\<^verbatim>\<open>xml.etree.ElementTree\<close>) and collects one
  \<^verbatim>\<open>RobloxScript\<close> per element whose \<^verbatim>\<open>class\<close> attribute is one of the three script
  kinds and whose \<^verbatim>\<open>Source\<close> text is not blank.

  Text is modelled over HOL characters. The two character classes the code asks Python for,
  \<^verbatim>\<open>str.isalnum\<close> and \<^verbatim>\<open>str.isspace\<close> (what \<^verbatim>\<open>strip\<close> and \<^verbatim>\<open>rstrip\<close> remove), belong
  to the interpreter's Unicode tables and not to the repository: every function that needs
  one takes it as its first argument, and every general theorem holds for any such predicate.
  The concrete examples use the ASCII classes \<open>ascii_isalnum\<close> and \<open>ascii_isspace\<close>.
\<close>

subsection \<open>The decoded tree\<close>

text \<open>
  An \<^verbatim>\<open>Element\<close> has a tag, a dictionary of attributes, an optional text and its children
  in document order. The parser never writes to the dictionary, so an association list read
  with \<open>map_of\<close> stands for it.
\<close>

datatype element =
  Element (tag: string) (attrib: "(string \<times> string) list") (text_of: "string option")
    (children: "element list")

text \<open>\<^verbatim>\<open>element.get(key, default)\<close> and \<^verbatim>\<open>element.get(key)\<close>.\<close>

definition get_default :: "element \<Rightarrow> string \<Rightarrow> string \<Rightarrow> string" where
  "get_default e k d = (case map_of (attrib e) k of None \<Rightarrow> d | Some v \<Rightarrow> v)"

definition get :: "element \<Rightarrow> string \<Rightarrow> string option" where
  "get e k = map_of (attrib e) k"

text \<open>\<^verbatim>\<open>elem.text or ""\<close>: an absent text reads as the empty string.\<close>

definition text_or_empty :: "element \<Rightarrow> string" where
  "text_or_empty e = (case text_of e of None \<Rightarrow> [] | Some s \<Rightarrow> s)"

text \<open>
  \<^verbatim>\<open>Element.iter()\<close>: the element itself, then the elements below it, depth first and in
  document order.
\<close>

fun iter :: "element \<Rightarrow> element list" where
  "iter (Element t a x cs) = Element t a x cs # concat (map iter cs)"

text \<open>
  \<^verbatim>\<open>element.findall('.//T')\<close>: every element with tag \<open>T\<close> strictly below \<open>element\<close>, in
  document order; \<^verbatim>\<open>element.findall('.//string[@name="N"]')\<close> keeps of the \<^verbatim>\<open>string\<close>
  elements those whose \<^verbatim>\<open>name\<close> attribute is \<open>N\<close>.
\<close>

definition findall_descendants :: "element \<Rightarrow> string \<Rightarrow> element list" where
  "findall_descendants e t = filter (\<lambda>d. tag d = t) (concat (map iter (children e)))"

definition findall_string_named :: "element \<Rightarrow> string \<Rightarrow> element list" where
  "findall_string_named e n =
     filter (\<lambda>d. get d ''name'' = Some n) (findall_descendants e ''string'')"

subsection \<open>Names\<close>

text \<open>
  The inner loop of both property scans, \<^verbatim>\<open>for child in prop: if child.get('name') == N\<close>,
  stops at the first child of the grouping that carries the name.
\<close>

definition first_named :: "string \<Rightarrow> element \<Rightarrow> element option" where
  "first_named n prop = List.find (\<lambda>child. get child ''name'' = Some n) (children prop)"

text \<open>
  The first loop of \<^verbatim>\<open>_get_element_name\<close> returns from the function at the first match, so
  later groupings are not looked at.
\<close>

fun name_in_properties :: "element list \<Rightarrow> string option" where
  "name_in_properties [] = None"
| "name_in_properties (prop # props) =
     (case first_named ''Name'' prop of
        Some child \<Rightarrow> Some (text_or_empty child)
      | None \<Rightarrow> name_in_properties props)"

definition get_element_name :: "element \<Rightarrow> string" where
  "get_element_name e =
     (case name_in_properties (findall_descendants e ''Properties'') of
        Some n \<Rightarrow> n
      | None \<Rightarrow>
          (case findall_string_named e ''Name'' of
             string_elem # _ \<Rightarrow> text_or_empty string_elem
           | [] \<Rightarrow> get_default e ''referent'' (get_default e ''class'' [])))"

subsection \<open>Strings and paths\<close>

text \<open>
  \<^verbatim>\<open>str.strip()\<close> and \<^verbatim>\<open>str.rstrip()\<close> with no argument remove the whitespace characters
  at both ends, or at the right end, of a string.
\<close>

definition lstrip :: "(char \<Rightarrow> bool) \<Rightarrow> string \<Rightarrow> string" where
  "lstrip isspace s = dropWhile isspace s"

definition rstrip :: "(char \<Rightarrow> bool) \<Rightarrow> string \<Rightarrow> string" where
  "rstrip isspace s = rev (dropWhile isspace (rev s))"

definition strip :: "(char \<Rightarrow> bool) \<Rightarrow> string \<Rightarrow> string" where
  "strip isspace s = rstrip isspace (lstrip isspace s)"

text \<open>
  \<^verbatim>\<open>str.lower()\<close>. The parser lowers the kind label of a script and the path of the input
  file before it compares its last characters with an ASCII suffix; on both, lowering the
  letters \<open>A\<close> to \<open>Z\<close> is all that \<^verbatim>\<open>lower\<close> does or all that the comparison can see.
\<close>

definition lower_char :: "char \<Rightarrow> char" where
  "lower_char c =
     (if (65::nat) \<le> of_char c \<and> of_char c \<le> (90::nat)
      then char_of (of_char c + (32::nat)) else c)"

definition lower :: "string \<Rightarrow> string" where
  "lower s = map lower_char s"

definition endswith :: "string \<Rightarrow> string \<Rightarrow> bool" where
  "endswith s suffix = (length suffix \<le> length s \<and> drop (length s - length suffix) s = suffix)"

text \<open>
  \<^verbatim>\<open>os.path.join(a, b)\<close> of \<^verbatim>\<open>posixpath\<close>: a second component that starts with the
  separator replaces the first; otherwise the components are joined by one separator, which
  is not doubled when the first already ends with it.
\<close>

definition os_path_join :: "string \<Rightarrow> string \<Rightarrow> string" where
  "os_path_join a b =
     (if b \<noteq> [] \<and> hd b = CHR ''/'' then b
      else if a = [] \<or> last a = CHR ''/'' then a @ b
      else a @ ''/'' @ b)"

subsection \<open>Script records\<close>

record RobloxScript =
  name :: string
  source :: string
  script_type :: string
  parent_path :: string

definition get_filename :: "(char \<Rightarrow> bool) \<Rightarrow> (char \<Rightarrow> bool) \<Rightarrow> RobloxScript \<Rightarrow> string" where
  "get_filename isalnum isspace self =
     (let clean_name =
            rstrip isspace
              (filter (\<lambda>c. isalnum c \<or> c \<in> set [CHR '' '', CHR ''-'', CHR ''_'']) (name self));
          clean_name = (if clean_name = [] then ''script'' else clean_name)
      in if script_type self = ''ModuleScript'' then clean_name @ ''.lua''
         else if script_type self = ''LocalScript'' then clean_name @ ''.client.lua''
         else clean_name @ ''.server.lua'')"

definition get_full_path :: "(char \<Rightarrow> bool) \<Rightarrow> (char \<Rightarrow> bool) \<Rightarrow> RobloxScript \<Rightarrow> string" where
  "get_full_path isalnum isspace self =
     (if parent_path self \<noteq> []
      then os_path_join (parent_path self) (get_filename isalnum isspace self)
      else get_filename isalnum isspace self)"

subsection \<open>Extraction of one script\<close>

definition script_classes :: "string list" where
  "script_classes = [''Script'', ''LocalScript'', ''ModuleScript'']"

text \<open>
  The first scan of \<^verbatim>\<open>_extract_script\<close>. Its \<^verbatim>\<open>break\<close> leaves the inner loop only: the loop
  over the groupings goes on, and a later grouping with a \<^verbatim>\<open>Source\<close> child assigns
  \<^verbatim>\<open>source\<close> again.
\<close>

definition source_in_properties :: "element list \<Rightarrow> string" where
  "source_in_properties props =
     fold (\<lambda>prop source.
             case first_named ''Source'' prop of
               Some child \<Rightarrow> text_or_empty child
             | None \<Rightarrow> source)
          props []"

text \<open>
  The second scan runs under \<^verbatim>\<open>if not source\<close>, that is whenever the first one left the
  empty string, and takes the first \<^verbatim>\<open>string\<close> element named \<^verbatim>\<open>Source\<close>.
\<close>

definition find_source :: "element \<Rightarrow> string" where
  "find_source e =
     (let source = source_in_properties (findall_descendants e ''Properties'')
      in if source = []
         then (case findall_string_named e ''Source'' of
                 string_elem # _ \<Rightarrow> text_or_empty string_elem
               | [] \<Rightarrow> source)
         else source)"

definition extract_script ::
  "(char \<Rightarrow> bool) \<Rightarrow> element \<Rightarrow> string \<Rightarrow> string \<Rightarrow> RobloxScript option" where
  "extract_script isspace e stype ppath =
     (let nm = get_element_name e;
          nm = (if nm = [] then ''unnamed_'' @ lower stype else nm);
          src = find_source e
      in if strip isspace src \<noteq> []
         then Some \<lparr>name = nm, source = src, script_type = stype, parent_path = ppath\<rparr>
         else None)"

subsection \<open>The walk\<close>

text \<open>
  \<^verbatim>\<open>_parse_element\<close> appends to \<^verbatim>\<open>self.scripts\<close>; the list is passed in and returned.
  \<open>own_script\<close> is the record of the element itself, if it has one, and \<open>current_path\<close>
  the path its children are walked with.
\<close>

definition own_script :: "(char \<Rightarrow> bool) \<Rightarrow> element \<Rightarrow> string \<Rightarrow> RobloxScript option" where
  "own_script isspace e ppath =
     (let class_name = get_default e ''class'' []
      in if class_name \<in> set script_classes
         then extract_script isspace e class_name ppath
         else None)"

definition current_path :: "element \<Rightarrow> string \<Rightarrow> string" where
  "current_path e ppath =
     (let class_name = get_default e ''class'' [];
          nm = get_element_name e
      in if nm \<noteq> [] \<and> class_name \<notin> set script_classes
         then (if ppath \<noteq> [] then os_path_join ppath nm else nm)
         else ppath)"

fun parse_element ::
  "(char \<Rightarrow> bool) \<Rightarrow> element \<Rightarrow> string \<Rightarrow> RobloxScript list \<Rightarrow> RobloxScript list" where
  "parse_element isspace (Element t a x cs) ppath scripts =
     (let scripts =
            (case own_script isspace (Element t a x cs) ppath of
               Some script \<Rightarrow> scripts @ [script]
             | None \<Rightarrow> scripts);
          cur = current_path (Element t a x cs) ppath
      in fold (\<lambda>child acc. parse_element isspace child cur acc) cs scripts)"

subsection \<open>The parser object\<close>

record RobloxFileParser =
  scripts :: "RobloxScript list"

text \<open>
  What \<^verbatim>\<open>parse_file\<close> meets outside the program: a path names no file, or a file that
  \<^verbatim>\<open>ET.parse\<close> cannot read at all, or one that is not well-formed XML, or a document with
  its root element. The interpreter's recursion limit, which a tree nested a thousand levels
  deep would reach, is not part of the model.
\<close>

datatype xml_file = Unreadable | Malformed | Document element

datatype error = FileNotFoundError | ValueError | RuntimeError

definition parse_file ::
  "(char \<Rightarrow> bool) \<Rightarrow> (string \<rightharpoonup> xml_file) \<Rightarrow> RobloxFileParser \<Rightarrow> string
     \<Rightarrow> (error + RobloxScript list) \<times> RobloxFileParser" where
  "parse_file isspace fs self file_path =
     (case fs file_path of
        None \<Rightarrow> (Inl FileNotFoundError, self)
      | Some f \<Rightarrow>
          if \<not> (endswith (lower file_path) ''.rbxm'' \<or> endswith (lower file_path) ''.rbxl'')
          then (Inl ValueError, self)
          else (case f of
                  Unreadable \<Rightarrow> (Inl RuntimeError, self)
                | Malformed \<Rightarrow> (Inl ValueError, self)
                | Document root \<Rightarrow>
                    (let self = self\<lparr>scripts := []\<rparr>;
                         self = self\<lparr>scripts := parse_element isspace root [] (scripts self)\<rparr>
                     in (Inr (scripts self), self))))"

definition get_scripts_by_type :: "RobloxFileParser \<Rightarrow> string \<Rightarrow> RobloxScript list" where
  "get_scripts_by_type self stype = filter (\<lambda>script. script_type script = stype) (scripts self)"

definition get_script_count :: "RobloxFileParser \<Rightarrow> (string \<rightharpoonup> int)" where
  "get_script_count self =
     fold (\<lambda>script counts.
             case counts (script_type script) of
               Some n \<Rightarrow> counts(script_type script \<mapsto> n + 1)
             | None \<Rightarrow> counts)
          (scripts self)
          [''Script'' \<mapsto> 0, ''LocalScript'' \<mapsto> 0, ''ModuleScript'' \<mapsto> 0]"

subsection \<open>ASCII character classes for the examples\<close>

text \<open>
  On ASCII text \<^verbatim>\<open>str.isalnum\<close> holds of the digits and the letters, and \<^verbatim>\<open>str.isspace\<close>
  of the space, the characters 9 to 13 and the separators 28 to 31.
\<close>

definition ascii_isalnum :: "char \<Rightarrow> bool" where
  "ascii_isalnum c =
     ((48::nat) \<le> of_char c \<and> of_char c \<le> (57::nat) \<or>
      (65::nat) \<le> of_char c \<and> of_char c \<le> (90::nat) \<or>
      (97::nat) \<le> of_char c \<and> of_char c \<le> (122::nat))"

definition ascii_isspace :: "char \<Rightarrow> bool" where
  "ascii_isspace c =
     (of_char c = (32::nat) \<or> (9::nat) \<le> of_char c \<and> of_char c \<le> (13::nat) \<or>
      (28::nat) \<le> of_char c \<and> of_char c \<le> (31::nat))"

subsection \<open>Document order and ancestors\<close>

text \<open>
  For stating where a record comes from: the elements of a tree in document order, each with
  the chain of its ancestors from the root down to its parent, and the path that the walk
  has built when it arrives below such a chain, starting from \<open>p0\<close> at the root.
\<close>

fun with_ancestors :: "element list \<Rightarrow> element \<Rightarrow> (element list \<times> element) list" where
  "with_ancestors ancs (Element t a x cs) =
     (ancs, Element t a x cs) # concat (map (with_ancestors (ancs @ [Element t a x cs])) cs)"

definition path_at :: "string \<Rightarrow> element list \<Rightarrow> string" where
  "path_at p0 ancs = foldl (\<lambda>p a. current_path a p) p0 ancs"

subsection \<open>Example inputs\<close>

definition count_example :: "RobloxFileParser" where
  "count_example = \<lparr>scripts =
     [\<lparr>name = ''Main'', source = ''print(1)'', script_type = ''Script'', parent_path = []\<rparr>,
      \<lparr>name = ''Util'', source = ''return {}'', script_type = ''ModuleScript'',
        parent_path = ''Lib''\<rparr>,
      \<lparr>name = ''Init'', source = ''print(2)'', script_type = ''Script'',
        parent_path = ''Lib''\<rparr>]\<rparr>"

definition filename_example :: "RobloxScript" where
  "filename_example =
     \<lparr>name = ''My Script! '', source = ''print(1)'', script_type = ''LocalScript'',
      parent_path = []\<rparr>"

text \<open>
  The tree of the specification's example, as a Roblox XML document has it:
  \<^verbatim>\<open><roblox class="DataModel"><Item class="Folder"><Properties><string
  name="Name">Workspace</string></Properties><Item class="Script"><Properties><string
  name="Name">Main</string><ProtectedString name="Source">print('hi')</ProtectedString>
  </Properties></Item></Item></roblox>\<close>.
\<close>

definition example_main :: element where
  "example_main =
     Element ''Item'' [(''class'', ''Script'')] None
       [Element ''Properties'' [] None
          [Element ''string'' [(''name'', ''Name'')] (Some ''Main'') [],
           Element ''ProtectedString'' [(''name'', ''Source'')] (Some ''print('hi')'') []]]"

definition example_workspace :: element where
  "example_workspace =
     Element ''Item'' [(''class'', ''Folder'')] None
       [Element ''Properties'' [] None
          [Element ''string'' [(''name'', ''Name'')] (Some ''Workspace'') []],
        example_main]"

definition example_root :: element where
  "example_root = Element ''roblox'' [(''class'', ''DataModel'')] None [example_workspace]"

text \<open>
  A script with a script below it, each with its own \<^verbatim>\<open>Properties\<close>.
\<close>

definition two_sources_script :: element where
  "two_sources_script =
     Element ''Item'' [(''class'', ''Script'')] None
       [Element ''Properties'' [] None
          [Element ''string'' [(''name'', ''Name'')] (Some ''Outer'') [],
           Element ''ProtectedString'' [(''name'', ''Source'')] (Some ''print(1)'') []],
        Element ''Item'' [(''class'', ''ModuleScript'')] None
          [Element ''Properties'' [] None
             [Element ''string'' [(''name'', ''Name'')] (Some ''Inner'') [],
              Element ''ProtectedString'' [(''name'', ''Source'')] (Some ''return {}'') []]]]"

text \<open>
  A script whose \<^verbatim>\<open>Source\<close> property is there with no text, and a \<^verbatim>\<open>string\<close> element
  named \<^verbatim>\<open>Source\<close> outside of any \<^verbatim>\<open>Properties\<close>.
\<close>

definition absent_source_script :: element where
  "absent_source_script =
     Element ''Item'' [(''class'', ''Script'')] None
       [Element ''Properties'' [] None
          [Element ''string'' [(''name'', ''Name'')] (Some ''Main'') [],
           Element ''ProtectedString'' [(''name'', ''Source'')] None []],
        Element ''string'' [(''name'', ''Source'')] (Some ''print(1)'') []]"

text \<open>
  A model file: the root \<^verbatim>\<open>roblox\<close> element has no class and no properties of its own;
  it holds a Script \<open>Main\<close> with a ModuleScript \<open>Helper\<close> below it.
\<close>

definition nested_helper :: element where
  "nested_helper =
     Element ''Item'' [(''class'', ''ModuleScript'')] None
       [Element ''Properties'' [] None
          [Element ''string'' [(''name'', ''Name'')] (Some ''Helper'') [],
           Element ''ProtectedString'' [(''name'', ''Source'')] (Some ''return {}'') []]]"

definition nested_main :: element where
  "nested_main =
     Element ''Item'' [(''class'', ''Script'')] None
       [Element ''Properties'' [] None
          [Element ''string'' [(''name'', ''Name'')] (Some ''Main'') [],
           Element ''ProtectedString'' [(''name'', ''Source'')] (Some ''print(1)'') []],
        nested_helper]"

definition nested_root :: element where
  "nested_root = Element ''roblox'' [(''version'', ''4'')] None [nested_main]"

text \<open>
  A folder whose own \<^verbatim>\<open>Properties\<close> has no \<^verbatim>\<open>Name\<close>, with a \<^verbatim>\<open>string\<close> element named
  \<^verbatim>\<open>Name\<close> outside of any grouping before it and a part below it whose grouping has two
  children named \<^verbatim>\<open>Name\<close>; and a folder with no \<^verbatim>\<open>Name\<close> anywhere.
\<close>

definition name_example :: element where
  "name_example =
     Element ''Item'' [(''class'', ''Folder''), (''referent'', ''RBX0'')] None
       [Element ''string'' [(''name'', ''Name'')] (Some ''Flat'') [],
        Element ''Properties'' [] None
          [Element ''bool'' [(''name'', ''Archivable'')] (Some ''true'') []],
        Element ''Item'' [(''class'', ''Part'')] None
          [Element ''Properties'' [] None
             [Element ''bool'' [(''name'', ''Anchored'')] (Some ''true'') [],
              Element ''string'' [(''name'', ''Name'')] (Some ''Inner'') [],
              Element ''string'' [(''name'', ''Name'')] (Some ''Second'') []]]]"

definition unnamed_example :: element where
  "unnamed_example =
     Element ''Item'' [(''class'', ''Folder''), (''referent'', ''RBX1'')] None
       [Element ''Properties'' [] None
          [Element ''bool'' [(''name'', ''Archivable'')] (Some ''true'') []]]"

subsection \<open>Paths from ancestors\<close>

text \<open>
  For stating which ancestors a path is made of: an element contributes its name to the path
  of what lies below it when the name is not empty and its class is not a script class, and
  the names are joined from the root down as \<open>current_path\<close> joins one name.
\<close>

definition contributes :: "element \<Rightarrow> bool" where
  "contributes e = (get_element_name e \<noteq> [] \<and> get_default e ''class'' [] \<notin> set script_classes)"

definition join_segments :: "string \<Rightarrow> string list \<Rightarrow> string" where
  "join_segments p0 names = foldl (\<lambda>p nm. if p \<noteq> [] then os_path_join p nm else nm) p0 names"

section \<open>Properties\<close>

subsection \<open>The shape of the walk\<close>

lemma fold_append_acc:
  assumes "\<And>c acc. c \<in> set cs \<Longrightarrow> f c acc = acc @ f c []"
  shows "fold f cs acc = acc @ concat (map (\<lambda>c. f c []) cs)"
  using assms
proof (induction cs arbitrary: acc)
  case Nil
  show ?case by simp
next
  case (Cons c cs)
  have rest: "fold f cs (f c acc) = f c acc @ concat (map (\<lambda>c. f c []) cs)"
    by (rule Cons.IH) (rule Cons.prems, simp)
  have "f c acc = acc @ f c []"
    by (rule Cons.prems) simp
  with rest show ?case by simp
qed

lemma parse_element_acc:
  "parse_element isspace e p acc = acc @ parse_element isspace e p []"
proof (induction e arbitrary: p acc)
  case (Element t a x cs)
  have kids: "fold (\<lambda>c. parse_element isspace c q) cs own =
      own @ concat (map (\<lambda>c. parse_element isspace c q []) cs)" for own q
    by (rule fold_append_acc) (rule Element.IH)
  show ?case
    by (simp add: kids split: option.split)
qed

lemma parse_element_unfold:
  "parse_element isspace e p [] =
     (case own_script isspace e p of Some s \<Rightarrow> [s] | None \<Rightarrow> []) @
     concat (map (\<lambda>c. parse_element isspace c (current_path e p) []) (children e))"
proof (cases e)
  case (Element t a x cs)
  have "fold (\<lambda>c. parse_element isspace c (current_path e p)) cs own =
      own @ concat (map (\<lambda>c. parse_element isspace c (current_path e p) []) cs)" for own
    by (rule fold_append_acc) (rule parse_element_acc)
  then show ?thesis
    unfolding Element by (simp split: option.split)
qed

lemma map_filter_concat:
  "List.map_filter f (concat xss) = concat (map (List.map_filter f) xss)"
  by (induction xss) (simp_all add: List.map_filter_def)

lemma path_at_snoc: "path_at p0 (ancs @ [e]) = current_path e (path_at p0 ancs)"
  by (simp add: path_at_def)

lemma parse_element_with_ancestors:
  "parse_element isspace e (path_at p0 ancs) [] =
     List.map_filter (\<lambda>(as, n). own_script isspace n (path_at p0 as)) (with_ancestors ancs e)"
proof (induction e arbitrary: ancs)
  case (Element t a x cs)
  let ?e = "Element t a x cs"
  have kids: "map (\<lambda>c. parse_element isspace c (current_path ?e (path_at p0 ancs)) []) cs =
      map (\<lambda>c. List.map_filter (\<lambda>(as, n). own_script isspace n (path_at p0 as))
                 (with_ancestors (ancs @ [?e]) c)) cs"
    using Element.IH [of _ "ancs @ [?e]"] by (simp add: path_at_snoc)
  show ?case
    by (subst parse_element_unfold)
      (simp add: kids map_filter_concat List.map_filter_simps o_def split: option.split)
qed

lemma with_ancestors_iter: "map snd (with_ancestors ancs e) = iter e"
proof (induction e arbitrary: ancs)
  case (Element t a x cs)
  have eq: "map (\<lambda>c. map snd (with_ancestors (ancs @ [Element t a x cs]) c)) cs = map iter cs"
    by (rule map_cong [OF refl]) (simp add: Element.IH)
  show ?case by (simp add: map_concat o_def eq)
qed

text \<open>
  Claim C5. The records of a walk are listed in document order. The walk appends to the list
  it is given; what it appends is the record of the element itself, if there is one, and
  then what the walks of its children append, one child after the other in their order; and
  so the appended records are those of the elements of the tree taken in document order (the
  order of \<open>iter\<close>), each extracted with the path built along its ancestors.
\<close>

theorem walk_document_order:
  "parse_element isspace root p0 acc =
     acc @ List.map_filter (\<lambda>(ancs, n). own_script isspace n (path_at p0 ancs))
             (with_ancestors [] root)
   \<and> map snd (with_ancestors [] root) = iter root
   \<and> parse_element isspace root p0 acc =
       (acc @ (case own_script isspace root p0 of Some s \<Rightarrow> [s] | None \<Rightarrow> [])) @
       concat (map (\<lambda>c. parse_element isspace c (current_path root p0) []) (children root))"
proof (intro conjI)
  have "parse_element isspace root (path_at p0 []) [] =
      List.map_filter (\<lambda>(ancs, n). own_script isspace n (path_at p0 ancs)) (with_ancestors [] root)"
    by (rule parse_element_with_ancestors)
  then have "parse_element isspace root p0 [] =
      List.map_filter (\<lambda>(ancs, n). own_script isspace n (path_at p0 ancs)) (with_ancestors [] root)"
    by (simp add: path_at_def)
  then show "parse_element isspace root p0 acc =
      acc @ List.map_filter (\<lambda>(ancs, n). own_script isspace n (path_at p0 ancs))
              (with_ancestors [] root)"
    by (subst parse_element_acc) simp
  show "map snd (with_ancestors [] root) = iter root"
    by (rule with_ancestors_iter)
  show "parse_element isspace root p0 acc =
      (acc @ (case own_script isspace root p0 of Some s \<Rightarrow> [s] | None \<Rightarrow> [])) @
      concat (map (\<lambda>c. parse_element isspace c (current_path root p0) []) (children root))"
    by (subst parse_element_acc) (simp add: parse_element_unfold [symmetric])
qed

subsection \<open>Parsing a file twice\<close>

text \<open>
  Claim C8. \<^verbatim>\<open>parse_file\<close> binds \<^verbatim>\<open>self.scripts\<close> to a new empty list before it walks the
  tree. Its result therefore does not depend on what the parser held before, and parsing the
  same unmodified file again, with the parser as the first call left it, gives the same
  records in the same order (and leaves the parser as it was). For a readable document with
  one of the two extensions the result is the walk of its root from the empty path and the
  empty list.
\<close>

theorem parse_file_twice:
  "fst (parse_file isspace fs self file_path) = fst (parse_file isspace fs other file_path)
   \<and> parse_file isspace fs (snd (parse_file isspace fs self file_path)) file_path =
       parse_file isspace fs self file_path
   \<and> (fs file_path = Some (Document root) \<and>
        (endswith (lower file_path) ''.rbxm'' \<or> endswith (lower file_path) ''.rbxl'') \<longrightarrow>
        fst (parse_file isspace fs self file_path) = Inr (parse_element isspace root [] []))"
  by (simp add: parse_file_def split: option.split xml_file.split)

theorem parse_file_twice_witness:
  "[''Model.RBXM'' \<mapsto> Document example_root] ''Model.RBXM'' = Some (Document example_root)
   \<and> endswith (lower ''Model.RBXM'') ''.rbxm''
   \<and> scripts count_example \<noteq> []
   \<and> fst (parse_file ascii_isspace [''Model.RBXM'' \<mapsto> Document example_root] count_example
         ''Model.RBXM'') =
       Inr [\<lparr>name = ''Main'', source = ''print('hi')'', script_type = ''Script'',
             parent_path = ''Workspace/Workspace''\<rparr>]"
proof -
  have f: "[''Model.RBXM'' \<mapsto> Document example_root] ''Model.RBXM'' = Some (Document example_root)"
    by simp
  have e: "endswith (lower ''Model.RBXM'') ''.rbxm''"
    by code_simp
  have w: "parse_element ascii_isspace example_root [] [] =
      [\<lparr>name = ''Main'', source = ''print('hi')'', script_type = ''Script'',
        parent_path = ''Workspace/Workspace''\<rparr>]"
    by code_simp
  have n: "scripts count_example \<noteq> []"
    by (simp add: count_example_def)
  from parse_file_twice
    [of ascii_isspace "[''Model.RBXM'' \<mapsto> Document example_root]" count_example "''Model.RBXM''"
      count_example example_root]
  have "fst (parse_file ascii_isspace [''Model.RBXM'' \<mapsto> Document example_root] count_example
         ''Model.RBXM'') = Inr (parse_element ascii_isspace example_root [] [])"
    using f e by blast
  then show ?thesis using f e n w by simp
qed

subsection \<open>Whitespace\<close>

lemma rstrip_decomp:
  "s = rstrip isspace s @ rev (takeWhile isspace (rev s))"
proof -
  have "s = rev (takeWhile isspace (rev s) @ dropWhile isspace (rev s))"
    by (simp only: takeWhile_dropWhile_id rev_rev_ident)
  also have "\<dots> = rev (dropWhile isspace (rev s)) @ rev (takeWhile isspace (rev s))"
    by (rule rev_append)
  finally show ?thesis by (simp only: rstrip_def)
qed

lemma rstrip_last: "rstrip isspace s \<noteq> [] \<Longrightarrow> \<not> isspace (last (rstrip isspace s))"
  by (simp add: rstrip_def last_rev hd_dropWhile)

lemma strip_empty_iff: "strip isspace s = [] \<longleftrightarrow> (\<forall>c \<in> set s. isspace c)"
proof
  assume "strip isspace s = []"
  then have all: "\<forall>c \<in> set (dropWhile isspace s). isspace c"
    by (simp add: strip_def rstrip_def lstrip_def)
  have "dropWhile isspace s = []"
  proof (rule ccontr)
    assume ne: "dropWhile isspace s \<noteq> []"
    then have "\<not> isspace (hd (dropWhile isspace s))" by (rule hd_dropWhile)
    moreover have "hd (dropWhile isspace s) \<in> set (dropWhile isspace s)" using ne by simp
    ultimately show False using all by blast
  qed
  then show "\<forall>c \<in> set s. isspace c" by simp
next
  assume "\<forall>c \<in> set s. isspace c"
  then have d: "dropWhile isspace s = []" by simp
  show "strip isspace s = []"
    unfolding strip_def rstrip_def lstrip_def d by simp
qed

subsection \<open>Records with a blank source are dropped\<close>

lemma own_script_source:
  "own_script isspace e p = Some r \<Longrightarrow> source r = find_source e \<and> strip isspace (source r) \<noteq> []
     \<and> parent_path r = p \<and> script_type r \<in> set script_classes"
  by (auto simp: own_script_def extract_script_def Let_def split: if_splits)

lemma walk_record_origin:
  assumes "r \<in> set (parse_element isspace root p0 [])"
  shows "\<exists>ancs n. (ancs, n) \<in> set (with_ancestors [] root) \<and> own_script isspace n (path_at p0 ancs) = Some r"
proof -
  have "parse_element isspace root (path_at p0 []) [] =
      List.map_filter (\<lambda>(as, n). own_script isspace n (path_at p0 as)) (with_ancestors [] root)"
    by (rule parse_element_with_ancestors)
  with assms have "r \<in> set (List.map_filter (\<lambda>(as, n). own_script isspace n (path_at p0 as)) (with_ancestors [] root))"
    by (simp add: path_at_def)
  then show ?thesis by (fastforce simp: List.map_filter_def)
qed

text \<open>
  Claim C4. \<^verbatim>\<open>_extract_script\<close> returns no record exactly when the source text it has
  looked up is empty once the whitespace at its ends is removed; a record that it returns
  carries the text as it was found, not the stripped one. Hence every record of a walk has a
  source with at least one character that is not whitespace.
\<close>

theorem extract_script_blank_source:
  "(extract_script isspace e stype ppath = None) = (strip isspace (find_source e) = [])
   \<and> (\<forall>r. extract_script isspace e stype ppath = Some r \<longrightarrow> source r = find_source e)
   \<and> (\<forall>r \<in> set (parse_element isspace root p0 []).
         source r \<noteq> [] \<and> (\<exists>c \<in> set (source r). \<not> isspace c))"
proof (intro conjI ballI allI impI)
  show "(extract_script isspace e stype ppath = None) = (strip isspace (find_source e) = [])"
    by (simp add: extract_script_def Let_def)
  show "source r = find_source e" if "extract_script isspace e stype ppath = Some r" for r
    using that by (auto simp: extract_script_def Let_def split: if_splits)
next
  fix r assume "r \<in> set (parse_element isspace root p0 [])"
  then obtain ancs n where "own_script isspace n (path_at p0 ancs) = Some r"
    using walk_record_origin by blast
  then have ne: "strip isspace (source r) \<noteq> []" using own_script_source by blast
  then show "\<exists>c \<in> set (source r). \<not> isspace c" by (simp add: strip_empty_iff)
  then show "source r \<noteq> []" by auto
qed

theorem extract_script_blank_source_witness:
  "extract_script ascii_isspace example_main ''Script'' ''Workspace'' =
     Some \<lparr>name = ''Main'', source = ''print('hi')'', script_type = ''Script'',
           parent_path = ''Workspace''\<rparr>
   \<and> find_source example_main = ''print('hi')''
   \<and> strip ascii_isspace (find_source example_main) \<noteq> []
   \<and> set (parse_element ascii_isspace example_main ''Workspace'' []) \<noteq> {}"
proof -
  have ex: "extract_script ascii_isspace example_main ''Script'' ''Workspace'' =
     Some \<lparr>name = ''Main'', source = ''print('hi')'', script_type = ''Script'',
           parent_path = ''Workspace''\<rparr>"
    by code_simp
  have walk: "parse_element ascii_isspace example_main ''Workspace'' [] =
     [\<lparr>name = ''Main'', source = ''print('hi')'', script_type = ''Script'',
       parent_path = ''Workspace''\<rparr>]"
    by code_simp
  from ex extract_script_blank_source
    [of ascii_isspace example_main "''Script''" "''Workspace''" example_main "''Workspace''"]
  show ?thesis by (simp add: walk)
qed

subsection \<open>File names\<close>

text \<open>
  Claim C6. \<^verbatim>\<open>get_filename\<close> keeps of the name the alphanumeric characters, the spaces,
  the hyphens and the underscores, in their order; it removes the whitespace at the end of
  what it has kept (what is left does not end with whitespace); it takes \<^verbatim>\<open>script\<close> when
  nothing is left; and it appends \<^verbatim>\<open>.lua\<close> for a ModuleScript, \<^verbatim>\<open>.client.lua\<close> for a
  LocalScript and \<^verbatim>\<open>.server.lua\<close> for a Script.
\<close>

theorem get_filename_sanitized:
  "\<exists>stem ws.
     filter (\<lambda>c. isalnum c \<or> c = CHR '' '' \<or> c = CHR ''-'' \<or> c = CHR ''_'') (name r) = stem @ ws
     \<and> (\<forall>c \<in> set ws. isspace c)
     \<and> (stem = [] \<or> \<not> isspace (last stem))
     \<and> get_filename isalnum isspace r =
         (if stem = [] then ''script'' else stem) @
         (if script_type r = ''ModuleScript'' then ''.lua''
          else if script_type r = ''LocalScript'' then ''.client.lua''
          else ''.server.lua'')"
proof -
  let ?kept = "filter (\<lambda>c. isalnum c \<or> c = CHR '' '' \<or> c = CHR ''-'' \<or> c = CHR ''_'') (name r)"
  let ?stem = "rstrip isspace ?kept"
  let ?ws = "rev (takeWhile isspace (rev ?kept))"
  have split: "?kept = ?stem @ ?ws"
    by (rule rstrip_decomp)
  have ws: "\<forall>c \<in> set ?ws. isspace c"
    by (auto dest: set_takeWhileD)
  have stem: "?stem = [] \<or> \<not> isspace (last ?stem)"
    using rstrip_last by blast
  have name: "get_filename isalnum isspace r =
      (if ?stem = [] then ''script'' else ?stem) @
      (if script_type r = ''ModuleScript'' then ''.lua''
       else if script_type r = ''LocalScript'' then ''.client.lua''
       else ''.server.lua'')"
    by (simp add: get_filename_def Let_def)
  from split ws stem name show ?thesis by blast
qed

theorem get_filename_sanitized_witness:
  "get_filename ascii_isalnum ascii_isspace filename_example = ''My Script.client.lua''
   \<and> (\<exists>stem ws.
         filter (\<lambda>c. ascii_isalnum c \<or> c = CHR '' '' \<or> c = CHR ''-'' \<or> c = CHR ''_'')
           ''My Script! '' = stem @ ws
         \<and> (\<forall>c \<in> set ws. ascii_isspace c)
         \<and> (stem = [] \<or> \<not> ascii_isspace (last stem))
         \<and> ''My Script.client.lua'' = (if stem = [] then ''script'' else stem) @ ''.client.lua'')"
proof -
  have val: "get_filename ascii_isalnum ascii_isspace filename_example = ''My Script.client.lua''"
    by code_simp
  have nm: "name filename_example = ''My Script! ''"
    and ty: "script_type filename_example = ''LocalScript''"
    by (simp_all add: filename_example_def)
  from get_filename_sanitized [of ascii_isalnum filename_example ascii_isspace]
  show ?thesis unfolding val nm ty by simp
qed

subsection \<open>Counting by kind\<close>

lemma count_step_three:
  "(case [''Script'' \<mapsto> a, ''LocalScript'' \<mapsto> b, ''ModuleScript'' \<mapsto> c] (script_type r) of
      Some n \<Rightarrow> [''Script'' \<mapsto> a, ''LocalScript'' \<mapsto> b, ''ModuleScript'' \<mapsto> c]
                  (script_type r \<mapsto> n + 1)
    | None \<Rightarrow> [''Script'' \<mapsto> a, ''LocalScript'' \<mapsto> b, ''ModuleScript'' \<mapsto> c]) =
   [''Script'' \<mapsto> a + (if script_type r = ''Script'' then 1 else 0),
    ''LocalScript'' \<mapsto> b + (if script_type r = ''LocalScript'' then 1 else 0),
    ''ModuleScript'' \<mapsto> c + (if script_type r = ''ModuleScript'' then 1 else (0::int))]"
  by (rule ext) auto

lemma count_fold:
  "fold (\<lambda>script counts.
             case counts (script_type script) of
               Some n \<Rightarrow> counts(script_type script \<mapsto> n + 1)
             | None \<Rightarrow> counts) rs
      [''Script'' \<mapsto> a, ''LocalScript'' \<mapsto> b, ''ModuleScript'' \<mapsto> c] =
   [''Script'' \<mapsto> a + int (length (filter (\<lambda>r. script_type r = ''Script'') rs)),
    ''LocalScript'' \<mapsto> b + int (length (filter (\<lambda>r. script_type r = ''LocalScript'') rs)),
    ''ModuleScript'' \<mapsto> c + int (length (filter (\<lambda>r. script_type r = ''ModuleScript'') rs))]"
  (is "fold ?step rs _ = _")
proof (induction rs arbitrary: a b c)
  case Nil
  show ?case by simp
next
  case (Cons r rs)
  let ?a = "a + (if script_type r = ''Script'' then 1 else 0)"
  let ?b = "b + (if script_type r = ''LocalScript'' then 1 else 0)"
  let ?c = "c + (if script_type r = ''ModuleScript'' then 1 else 0)"
  have "fold ?step (r # rs) [''Script'' \<mapsto> a, ''LocalScript'' \<mapsto> b, ''ModuleScript'' \<mapsto> c] =
      fold ?step rs (?step r [''Script'' \<mapsto> a, ''LocalScript'' \<mapsto> b, ''ModuleScript'' \<mapsto> c])"
    by (simp only: fold_simps comp_apply)
  also have "\<dots> = fold ?step rs [''Script'' \<mapsto> ?a, ''LocalScript'' \<mapsto> ?b, ''ModuleScript'' \<mapsto> ?c]"
    by (simp only: count_step_three)
  also have "\<dots> =
      [''Script'' \<mapsto> ?a + int (length (filter (\<lambda>r. script_type r = ''Script'') rs)),
       ''LocalScript'' \<mapsto> ?b + int (length (filter (\<lambda>r. script_type r = ''LocalScript'') rs)),
       ''ModuleScript'' \<mapsto> ?c + int (length (filter (\<lambda>r. script_type r = ''ModuleScript'') rs))]"
    by (rule Cons.IH)
  also have "?a + int (length (filter (\<lambda>r. script_type r = ''Script'') rs)) =
      a + int (length (filter (\<lambda>r. script_type r = ''Script'') (r # rs)))"
    by simp
  also have "?b + int (length (filter (\<lambda>r. script_type r = ''LocalScript'') rs)) =
      b + int (length (filter (\<lambda>r. script_type r = ''LocalScript'') (r # rs)))"
    by simp
  also have "?c + int (length (filter (\<lambda>r. script_type r = ''ModuleScript'') rs)) =
      c + int (length (filter (\<lambda>r. script_type r = ''ModuleScript'') (r # rs)))"
    by simp
  finally show ?case .
qed

lemma three_kinds_partition:
  "\<forall>r \<in> set rs. script_type r \<in> set script_classes \<Longrightarrow>
   length (filter (\<lambda>r. script_type r = ''Script'') rs) +
   length (filter (\<lambda>r. script_type r = ''LocalScript'') rs) +
   length (filter (\<lambda>r. script_type r = ''ModuleScript'') rs) = length rs"
  by (induction rs) (auto simp: script_classes_def)

lemma walk_script_types:
  "r \<in> set (parse_element isspace root p0 []) \<Longrightarrow> script_type r \<in> set script_classes"
  using walk_record_origin own_script_source by blast

text \<open>
  Claim C7. \<^verbatim>\<open>get_script_count\<close> returns a dictionary with the three kinds as its keys
  and nothing else, each at zero before any record is counted and each holding the number
  of records of its kind; for records whose kind is one of the three, as every record of a
  walk is (\<open>walk_script_types\<close>), the three counts add up to the number of records.
\<close>

theorem get_script_count_three_kinds:
  "get_script_count self =
     [''Script'' \<mapsto> int (length (get_scripts_by_type self ''Script'')),
      ''LocalScript'' \<mapsto> int (length (get_scripts_by_type self ''LocalScript'')),
      ''ModuleScript'' \<mapsto> int (length (get_scripts_by_type self ''ModuleScript''))]
   \<and> dom (get_script_count self) = {''Script'', ''LocalScript'', ''ModuleScript''}
   \<and> get_script_count (self\<lparr>scripts := []\<rparr>) =
       [''Script'' \<mapsto> 0, ''LocalScript'' \<mapsto> 0, ''ModuleScript'' \<mapsto> 0]
   \<and> ((\<forall>r \<in> set (scripts self). script_type r \<in> set script_classes) \<longrightarrow>
        (\<exists>s l m. get_script_count self ''Script'' = Some s
           \<and> get_script_count self ''LocalScript'' = Some l
           \<and> get_script_count self ''ModuleScript'' = Some m
           \<and> s + l + m = int (length (scripts self))))"
proof -
  have eq: "get_script_count self =
     [''Script'' \<mapsto> int (length (get_scripts_by_type self ''Script'')),
      ''LocalScript'' \<mapsto> int (length (get_scripts_by_type self ''LocalScript'')),
      ''ModuleScript'' \<mapsto> int (length (get_scripts_by_type self ''ModuleScript''))]"
    unfolding get_script_count_def get_scripts_by_type_def
    using count_fold [of "scripts self" 0 0 0] by simp
  have d: "dom (get_script_count self) = {''Script'', ''LocalScript'', ''ModuleScript''}"
    unfolding eq by auto
  have z: "get_script_count (self\<lparr>scripts := []\<rparr>) =
       [''Script'' \<mapsto> 0, ''LocalScript'' \<mapsto> 0, ''ModuleScript'' \<mapsto> 0]"
    by (simp add: get_script_count_def)
  have s: "\<exists>s l m. get_script_count self ''Script'' = Some s
           \<and> get_script_count self ''LocalScript'' = Some l
           \<and> get_script_count self ''ModuleScript'' = Some m
           \<and> s + l + m = int (length (scripts self))"
    if "\<forall>r \<in> set (scripts self). script_type r \<in> set script_classes"
    using three_kinds_partition [OF that]
    unfolding eq get_scripts_by_type_def by simp
  from eq d z s show ?thesis by blast
qed

theorem get_script_count_witness:
  "map script_type (scripts count_example) = [''Script'', ''ModuleScript'', ''Script'']
   \<and> get_script_count count_example ''Script'' = Some 2
   \<and> get_script_count count_example ''LocalScript'' = Some 0
   \<and> get_script_count count_example ''ModuleScript'' = Some 1
   \<and> length (scripts count_example) = 3"
proof -
  have h: "\<forall>r \<in> set (scripts count_example). script_type r \<in> set script_classes"
    by (simp add: count_example_def script_classes_def)
  have "get_script_count count_example =
     [''Script'' \<mapsto> int (length (get_scripts_by_type count_example ''Script'')),
      ''LocalScript'' \<mapsto> int (length (get_scripts_by_type count_example ''LocalScript'')),
      ''ModuleScript'' \<mapsto> int (length (get_scripts_by_type count_example ''ModuleScript''))]"
    using get_script_count_three_kinds [of count_example] by blast
  moreover have "\<exists>s l m. get_script_count count_example ''Script'' = Some s
      \<and> get_script_count count_example ''LocalScript'' = Some l
      \<and> get_script_count count_example ''ModuleScript'' = Some m
      \<and> s + l + m = int (length (scripts count_example))"
    using get_script_count_three_kinds [of count_example] h by blast
  ultimately show ?thesis
    by (simp add: get_scripts_by_type_def count_example_def)
qed

subsection \<open>Looking up the source\<close>

lemma findall_descendants_iter:
  "findall_descendants e t = filter (\<lambda>d. tag d = t) (tl (iter e))"
  by (cases e) (simp add: findall_descendants_def)

lemma map_filter_snoc:
  "List.map_filter f (xs @ [x]) =
     List.map_filter f xs @ (case f x of None \<Rightarrow> [] | Some y \<Rightarrow> [y])"
  by (simp add: List.map_filter_def split: option.split)

lemma source_scan_fold:
  "fold (\<lambda>prop source.
           case first_named ''Source'' prop of
             Some child \<Rightarrow> text_or_empty child
           | None \<Rightarrow> source) props s0 =
     (if List.map_filter (first_named ''Source'') props = [] then s0
      else text_or_empty (last (List.map_filter (first_named ''Source'') props)))"
proof (induction props rule: rev_induct)
  case Nil
  show ?case by (simp add: List.map_filter_simps)
next
  case (snoc g gs)
  show ?case
    by (cases "first_named ''Source'' g") (simp_all add: snoc.IH map_filter_snoc)
qed

lemma source_in_properties_last:
  "source_in_properties props =
     (if List.map_filter (first_named ''Source'') props = [] then []
      else text_or_empty (last (List.map_filter (first_named ''Source'') props)))"
  unfolding source_in_properties_def by (rule source_scan_fold)

text \<open>
  Claim C10. The scan of the \<^verbatim>\<open>Properties\<close> groupings below a script does not stop at the
  first grouping with a \<^verbatim>\<open>Source\<close> child: of all the groupings in the subtree, taken in
  document order, the last one that has such a child gives the text. That text, when it is
  not empty, is the source that is looked up, and when it is not blank it is the source of
  the record.
\<close>

theorem source_scan_last_grouping_wins:
  "source_in_properties props =
     (if List.map_filter (first_named ''Source'') props = [] then []
      else text_or_empty (last (List.map_filter (first_named ''Source'') props)))
   \<and> findall_descendants e ''Properties'' = filter (\<lambda>d. tag d = ''Properties'') (tl (iter e))
   \<and> (source_in_properties (findall_descendants e ''Properties'') \<noteq> [] \<longrightarrow>
        find_source e = source_in_properties (findall_descendants e ''Properties''))
   \<and> (strip isspace (source_in_properties (findall_descendants e ''Properties'')) \<noteq> [] \<longrightarrow>
        map_option source (extract_script isspace e stype ppath) =
          Some (source_in_properties (findall_descendants e ''Properties'')))"
proof (intro conjI impI)
  show "source_in_properties props =
     (if List.map_filter (first_named ''Source'') props = [] then []
      else text_or_empty (last (List.map_filter (first_named ''Source'') props)))"
    by (rule source_in_properties_last)
  show "findall_descendants e ''Properties'' = filter (\<lambda>d. tag d = ''Properties'') (tl (iter e))"
    by (rule findall_descendants_iter)
  show fs: "find_source e = source_in_properties (findall_descendants e ''Properties'')"
    if "source_in_properties (findall_descendants e ''Properties'') \<noteq> []"
    using that by (simp add: find_source_def Let_def)
  show "map_option source (extract_script isspace e stype ppath) =
      Some (source_in_properties (findall_descendants e ''Properties''))"
    if ne: "strip isspace (source_in_properties (findall_descendants e ''Properties'')) \<noteq> []"
  proof -
    have "source_in_properties (findall_descendants e ''Properties'') \<noteq> []"
      using ne by (auto simp: strip_def rstrip_def lstrip_def)
    then have "find_source e = source_in_properties (findall_descendants e ''Properties'')"
      by (rule fs)
    then show ?thesis using ne by (simp add: extract_script_def Let_def)
  qed
qed

theorem source_scan_last_grouping_wins_witness:
  "List.map_filter (first_named ''Source'') (findall_descendants two_sources_script ''Properties'') =
     [Element ''ProtectedString'' [(''name'', ''Source'')] (Some ''print(1)'') [],
      Element ''ProtectedString'' [(''name'', ''Source'')] (Some ''return {}'') []]
   \<and> source_in_properties (findall_descendants two_sources_script ''Properties'') = ''return {}''
   \<and> find_source two_sources_script = ''return {}''
   \<and> map_option source (extract_script ascii_isspace two_sources_script ''Script'' []) =
       Some ''return {}''"
proof -
  have found: "List.map_filter (first_named ''Source'')
      (findall_descendants two_sources_script ''Properties'') =
     [Element ''ProtectedString'' [(''name'', ''Source'')] (Some ''print(1)'') [],
      Element ''ProtectedString'' [(''name'', ''Source'')] (Some ''return {}'') []]"
    by code_simp
  have scan: "source_in_properties (findall_descendants two_sources_script ''Properties'') =
      ''return {}''"
    by code_simp
  have ne: "strip ascii_isspace ''return {}'' \<noteq> []"
    by code_simp
  from source_scan_last_grouping_wins
    [of "findall_descendants two_sources_script ''Properties''" two_sources_script ascii_isspace
      "''Script''" "[]"]
  show ?thesis unfolding scan found using ne by simp
qed

text \<open>
  Claim C1, as stated, fails: the script \<open>absent_source_script\<close> has a
  \<^verbatim>\<open>Properties\<close> grouping whose
  \<^verbatim>\<open>Source\<close> child has no text, the scan of the groupings leaves the empty string, and
  the lookup does go on to the \<^verbatim>\<open>string\<close> element named \<^verbatim>\<open>Source\<close>, whose text becomes
  the source of the record.
\<close>

theorem absent_source_text_falls_through:
  "findall_descendants absent_source_script ''Properties'' =
     [Element ''Properties'' [] None
        [Element ''string'' [(''name'', ''Name'')] (Some ''Main'') [],
         Element ''ProtectedString'' [(''name'', ''Source'')] None []]]
   \<and> List.map_filter (first_named ''Source'')
         (findall_descendants absent_source_script ''Properties'') =
       [Element ''ProtectedString'' [(''name'', ''Source'')] None []]
   \<and> source_in_properties (findall_descendants absent_source_script ''Properties'') = []
   \<and> find_source absent_source_script = ''print(1)''
   \<and> extract_script ascii_isspace absent_source_script ''Script'' [] =
       Some \<lparr>name = ''Main'', source = ''print(1)'', script_type = ''Script'', parent_path = []\<rparr>"
  by code_simp

text \<open>
  Claim C1, amended. The two lookups are tried in order and the first that gives a text that
  is not empty wins. A \<^verbatim>\<open>Source\<close> child without text reads as the empty string; when it
  is the one the scan of the groupings ends with, the lookup falls through to the first
  \<^verbatim>\<open>string\<close> element named \<^verbatim>\<open>Source\<close>, as it does when no grouping has such a child.
\<close>

theorem find_source_two_strategies:
  "find_source e =
     (if source_in_properties (findall_descendants e ''Properties'') \<noteq> []
      then source_in_properties (findall_descendants e ''Properties'')
      else (case findall_string_named e ''Source'' of
              [] \<Rightarrow> []
            | string_elem # _ \<Rightarrow> text_or_empty string_elem))
   \<and> (\<forall>found child.
         List.map_filter (first_named ''Source'') (findall_descendants e ''Properties'') =
           found @ [child] \<and> text_of child = None \<longrightarrow>
         find_source e =
           (case findall_string_named e ''Source'' of
              [] \<Rightarrow> []
            | string_elem # _ \<Rightarrow> text_or_empty string_elem))"
proof (intro conjI allI impI)
  show two: "find_source e =
     (if source_in_properties (findall_descendants e ''Properties'') \<noteq> []
      then source_in_properties (findall_descendants e ''Properties'')
      else (case findall_string_named e ''Source'' of
              [] \<Rightarrow> []
            | string_elem # _ \<Rightarrow> text_or_empty string_elem))"
    by (simp add: find_source_def Let_def split: list.split)
  fix found child
  assume "List.map_filter (first_named ''Source'') (findall_descendants e ''Properties'') =
      found @ [child] \<and> text_of child = None"
  then have "source_in_properties (findall_descendants e ''Properties'') = []"
    by (simp add: source_in_properties_last text_or_empty_def)
  then show "find_source e =
      (case findall_string_named e ''Source'' of
         [] \<Rightarrow> []
       | string_elem # _ \<Rightarrow> text_or_empty string_elem)"
    by (simp add: two)
qed

theorem find_source_two_strategies_witness:
  "List.map_filter (first_named ''Source'')
       (findall_descendants absent_source_script ''Properties'') =
     [] @ [Element ''ProtectedString'' [(''name'', ''Source'')] None []]
   \<and> text_of (Element ''ProtectedString'' [(''name'', ''Source'')] None []) = None
   \<and> findall_string_named absent_source_script ''Source'' =
       [Element ''string'' [(''name'', ''Source'')] (Some ''print(1)'') []]
   \<and> find_source absent_source_script = ''print(1)''"
proof -
  have found: "List.map_filter (first_named ''Source'')
       (findall_descendants absent_source_script ''Properties'') =
     [] @ [Element ''ProtectedString'' [(''name'', ''Source'')] None []]"
    by code_simp
  have flat: "findall_string_named absent_source_script ''Source'' =
       [Element ''string'' [(''name'', ''Source'')] (Some ''print(1)'') []]"
    by code_simp
  have tx: "text_of (Element ''ProtectedString'' [(''name'', ''Source'')] None []) = None"
    by simp
  have "\<forall>found child.
      List.map_filter (first_named ''Source'')
        (findall_descendants absent_source_script ''Properties'') = found @ [child]
        \<and> text_of child = None \<longrightarrow>
      find_source absent_source_script =
        (case findall_string_named absent_source_script ''Source'' of
           [] \<Rightarrow> []
         | string_elem # _ \<Rightarrow> text_or_empty string_elem)"
    using find_source_two_strategies [of absent_source_script] by (rule conjunct2)
  then have "find_source absent_source_script =
      (case findall_string_named absent_source_script ''Source'' of
         [] \<Rightarrow> []
       | string_elem # _ \<Rightarrow> text_or_empty string_elem)"
    using found tx by (elim allE impE) (rule conjI)
  then show ?thesis using found flat tx by (simp add: text_or_empty_def)
qed

subsection \<open>Resolving a name\<close>

lemma find_first_match:
  "\<forall>x \<in> set xs. \<not> P x \<Longrightarrow> P y \<Longrightarrow> List.find P (xs @ y # ys) = Some y"
  by (induction xs) simp_all

lemma name_in_properties_none:
  "\<forall>g \<in> set gs. \<forall>c \<in> set (children g). map_of (attrib c) ''name'' \<noteq> Some ''Name'' \<Longrightarrow>
   name_in_properties gs = None"
proof (induction gs)
  case Nil
  show ?case by simp
next
  case (Cons g gs)
  have "first_named ''Name'' g = None"
    using Cons.prems by (simp add: first_named_def get_def find_None_iff)
  then show ?case using Cons by simp
qed

lemma name_in_properties_skip:
  assumes "\<forall>g \<in> set gs. \<forall>c \<in> set (children g). map_of (attrib c) ''name'' \<noteq> Some ''Name''"
  shows "name_in_properties (gs @ rest) = name_in_properties rest"
  using assms
proof (induction gs)
  case Nil
  show ?case by simp
next
  case (Cons g gs)
  have "first_named ''Name'' g = None"
    using Cons.prems by (simp add: first_named_def get_def find_None_iff)
  then show ?case using Cons by simp
qed

text \<open>
  Claim C9. The name of an element is not looked for in its own properties only. Take the
  \<^verbatim>\<open>Properties\<close> elements strictly below it, in document order, whether or not the first
  of them is its own. If one of them has a child whose \<^verbatim>\<open>name\<close> attribute is \<^verbatim>\<open>Name\<close>, and
  none before it has, the resolved name is the text of the first such child of that grouping
  (the empty string when the child has no text). If none of them has such a child, the code
  takes the text of the first \<^verbatim>\<open>string\<close> element named \<^verbatim>\<open>Name\<close> below the element, and
  when there is none either, the referent, and when there is no referent, the class (the
  empty string when there is no class): the referent and the class are reached only when no
  grouping of the subtree has a \<^verbatim>\<open>Name\<close>.
\<close>

theorem get_element_name_subtree:
  "(filter (\<lambda>d. tag d = ''Properties'') (tl (iter e)) = gs @ g # rest
     \<and> (\<forall>g' \<in> set gs. \<forall>c' \<in> set (children g'). map_of (attrib c') ''name'' \<noteq> Some ''Name'')
     \<and> children g = cs @ c # cs'
     \<and> (\<forall>c' \<in> set cs. map_of (attrib c') ''name'' \<noteq> Some ''Name'')
     \<and> map_of (attrib c) ''name'' = Some ''Name''
    \<longrightarrow> get_element_name e = (case text_of c of None \<Rightarrow> [] | Some s \<Rightarrow> s))
   \<and> ((\<forall>g' \<in> set (filter (\<lambda>d. tag d = ''Properties'') (tl (iter e))).
          \<forall>c' \<in> set (children g'). map_of (attrib c') ''name'' \<noteq> Some ''Name'')
    \<longrightarrow> get_element_name e =
          (case filter (\<lambda>d. tag d = ''string'' \<and> map_of (attrib d) ''name'' = Some ''Name'')
                  (tl (iter e)) of
             s # _ \<Rightarrow> (case text_of s of None \<Rightarrow> [] | Some t \<Rightarrow> t)
           | [] \<Rightarrow>
               (case map_of (attrib e) ''referent'' of
                  Some referent \<Rightarrow> referent
                | None \<Rightarrow>
                    (case map_of (attrib e) ''class'' of
                       Some class_name \<Rightarrow> class_name
                     | None \<Rightarrow> []))))"
proof (intro conjI impI)
  assume h: "filter (\<lambda>d. tag d = ''Properties'') (tl (iter e)) = gs @ g # rest
     \<and> (\<forall>g' \<in> set gs. \<forall>c' \<in> set (children g'). map_of (attrib c') ''name'' \<noteq> Some ''Name'')
     \<and> children g = cs @ c # cs'
     \<and> (\<forall>c' \<in> set cs. map_of (attrib c') ''name'' \<noteq> Some ''Name'')
     \<and> map_of (attrib c) ''name'' = Some ''Name''"
  then have props: "findall_descendants e ''Properties'' = gs @ g # rest"
    by (simp add: findall_descendants_iter)
  have "List.find (\<lambda>child. get child ''name'' = Some ''Name'') (cs @ c # cs') = Some c"
    by (rule find_first_match) (use h in \<open>simp_all add: get_def\<close>)
  then have g: "first_named ''Name'' g = Some c"
    using h by (simp add: first_named_def)
  have "name_in_properties (gs @ g # rest) = name_in_properties (g # rest)"
    by (rule name_in_properties_skip) (use h in blast)
  then have "name_in_properties (gs @ g # rest) = Some (text_or_empty c)"
    using g by simp
  then show "get_element_name e = (case text_of c of None \<Rightarrow> [] | Some s \<Rightarrow> s)"
    by (simp add: get_element_name_def props text_or_empty_def)
next
  assume h: "\<forall>g' \<in> set (filter (\<lambda>d. tag d = ''Properties'') (tl (iter e))).
          \<forall>c' \<in> set (children g'). map_of (attrib c') ''name'' \<noteq> Some ''Name''"
  have none: "name_in_properties (findall_descendants e ''Properties'') = None"
    by (rule name_in_properties_none) (use h in \<open>simp add: findall_descendants_iter\<close>)
  have flat: "findall_string_named e ''Name'' =
      filter (\<lambda>d. tag d = ''string'' \<and> map_of (attrib d) ''name'' = Some ''Name'') (tl (iter e))"
    by (simp add: findall_string_named_def findall_descendants_iter get_def conj_commute)
  show "get_element_name e =
          (case filter (\<lambda>d. tag d = ''string'' \<and> map_of (attrib d) ''name'' = Some ''Name'')
                  (tl (iter e)) of
             s # _ \<Rightarrow> (case text_of s of None \<Rightarrow> [] | Some t \<Rightarrow> t)
           | [] \<Rightarrow>
               (case map_of (attrib e) ''referent'' of
                  Some referent \<Rightarrow> referent
                | None \<Rightarrow>
                    (case map_of (attrib e) ''class'' of
                       Some class_name \<Rightarrow> class_name
                     | None \<Rightarrow> [])))"
    unfolding get_element_name_def none flat [symmetric]
    by (simp add: get_default_def text_or_empty_def split: list.split option.split)
qed

theorem get_element_name_subtree_witness:
  "filter (\<lambda>d. tag d = ''Properties'') (tl (iter name_example)) =
     [Element ''Properties'' [] None
        [Element ''bool'' [(''name'', ''Archivable'')] (Some ''true'') []]] @
     Element ''Properties'' [] None
       [Element ''bool'' [(''name'', ''Anchored'')] (Some ''true'') [],
        Element ''string'' [(''name'', ''Name'')] (Some ''Inner'') [],
        Element ''string'' [(''name'', ''Name'')] (Some ''Second'') []] # []
   \<and> filter (\<lambda>d. tag d = ''string'' \<and> map_of (attrib d) ''name'' = Some ''Name'')
         (tl (iter name_example)) \<noteq> []
   \<and> map_of (attrib name_example) ''referent'' = Some ''RBX0''
   \<and> get_element_name name_example = ''Inner''
   \<and> filter (\<lambda>d. tag d = ''string'' \<and> map_of (attrib d) ''name'' = Some ''Name'')
         (tl (iter unnamed_example)) = []
   \<and> get_element_name unnamed_example = ''RBX1''"
proof -
  let ?own = "Element ''Properties'' [] None
        [Element ''bool'' [(''name'', ''Archivable'')] (Some ''true'') []]"
  let ?c = "Element ''string'' [(''name'', ''Name'')] (Some ''Inner'') []"
  let ?inner = "Element ''Properties'' [] None
       [Element ''bool'' [(''name'', ''Anchored'')] (Some ''true'') [],
        ?c,
        Element ''string'' [(''name'', ''Name'')] (Some ''Second'') []]"
  have groupings: "filter (\<lambda>d. tag d = ''Properties'') (tl (iter name_example)) =
      [?own] @ ?inner # []"
    by (simp add: name_example_def)
  have before: "\<forall>g' \<in> set [?own]. \<forall>c' \<in> set (children g').
      map_of (attrib c') ''name'' \<noteq> Some ''Name''"
    by simp
  have kids: "children ?inner =
      [Element ''bool'' [(''name'', ''Anchored'')] (Some ''true'') []] @ ?c #
      [Element ''string'' [(''name'', ''Name'')] (Some ''Second'') []]"
    by simp
  have skipped: "\<forall>c' \<in> set [Element ''bool'' [(''name'', ''Anchored'')] (Some ''true'') []].
      map_of (attrib c') ''name'' \<noteq> Some ''Name''"
    by simp
  have named: "map_of (attrib ?c) ''name'' = Some ''Name''"
    by simp
  have "get_element_name name_example = (case text_of ?c of None \<Rightarrow> [] | Some s \<Rightarrow> s)"
    using conjunct1 [OF get_element_name_subtree
        [of name_example "[?own]" ?inner "[]"
          "[Element ''bool'' [(''name'', ''Anchored'')] (Some ''true'') []]" ?c
          "[Element ''string'' [(''name'', ''Name'')] (Some ''Second'') []]"]]
      groupings before kids skipped named
    by blast
  then have inner: "get_element_name name_example = ''Inner''"
    by simp
  have flat: "filter (\<lambda>d. tag d = ''string'' \<and> map_of (attrib d) ''name'' = Some ''Name'')
         (tl (iter name_example)) \<noteq> []"
    by (simp add: name_example_def)
  have ref: "map_of (attrib name_example) ''referent'' = Some ''RBX0''"
    by (simp add: name_example_def)
  have none: "\<forall>g' \<in> set (filter (\<lambda>d. tag d = ''Properties'') (tl (iter unnamed_example))).
      \<forall>c' \<in> set (children g'). map_of (attrib c') ''name'' \<noteq> Some ''Name''"
    by (simp add: unnamed_example_def)
  have noflat: "filter (\<lambda>d. tag d = ''string'' \<and> map_of (attrib d) ''name'' = Some ''Name'')
         (tl (iter unnamed_example)) = []"
    by (simp add: unnamed_example_def)
  have "get_element_name unnamed_example =
          (case filter (\<lambda>d. tag d = ''string'' \<and> map_of (attrib d) ''name'' = Some ''Name'')
                  (tl (iter unnamed_example)) of
             s # _ \<Rightarrow> (case text_of s of None \<Rightarrow> [] | Some t \<Rightarrow> t)
           | [] \<Rightarrow>
               (case map_of (attrib unnamed_example) ''referent'' of
                  Some referent \<Rightarrow> referent
                | None \<Rightarrow>
                    (case map_of (attrib unnamed_example) ''class'' of
                       Some class_name \<Rightarrow> class_name
                     | None \<Rightarrow> [])))"
    using mp [OF conjunct2 [OF get_element_name_subtree [of unnamed_example]] none] .
  then have fallback: "get_element_name unnamed_example = ''RBX1''"
    unfolding noflat by (simp add: unnamed_example_def)
  from groupings flat ref inner noflat fallback show ?thesis by simp
qed

subsection \<open>The example of the specification\<close>

text \<open>
  Claim C2, as stated, fails: on the example tree the walk does not give the parent path
  \<^verbatim>\<open>Workspace\<close>, nor the full path \<^verbatim>\<open>Workspace/Main.server.lua\<close>.
\<close>

theorem spec_example_counterexample:
  "parse_element ascii_isspace example_root [] [] \<noteq>
     [\<lparr>name = ''Main'', source = ''print('hi')'', script_type = ''Script'',
       parent_path = ''Workspace''\<rparr>]
   \<and> map (get_full_path ascii_isalnum ascii_isspace) (parse_element ascii_isspace example_root [] []) \<noteq>
       [''Workspace/Main.server.lua'']"
  by code_simp

lemma example_workspace_names:
  "get_element_name (Element t ((''class'', ''DataModel'') # a) x [example_workspace]) = ''Workspace''"
  "get_element_name example_workspace = ''Workspace''"
  "get_element_name example_main = ''Main''"
  "find_source example_main = ''print('hi')''"
  by (simp_all add: example_workspace_def example_main_def get_element_name_def
      findall_descendants_def first_named_def get_def text_or_empty_def find_source_def
      source_in_properties_def)

text \<open>
  Claim C2, amended. The root has no name of its own, so its name is the first \<^verbatim>\<open>Name\<close>
  found below it, which is the folder's; the root and the folder each add the segment
  \<^verbatim>\<open>Workspace\<close>. Whatever the tag, the text and the further attributes of the root, the
  walk yields exactly one record, with name \<^verbatim>\<open>Main\<close>, kind Script, source
  \<^verbatim>\<open>print('hi')\<close> and parent path \<^verbatim>\<open>Workspace/Workspace\<close>; its file name is
  \<^verbatim>\<open>Main.server.lua\<close> and its full path \<^verbatim>\<open>Workspace/Workspace/Main.server.lua\<close>.
\<close>

theorem spec_example_walk:
  "parse_element ascii_isspace (Element t ((''class'', ''DataModel'') # a) x [example_workspace]) [] [] =
     [\<lparr>name = ''Main'', source = ''print('hi')'', script_type = ''Script'',
       parent_path = ''Workspace/Workspace''\<rparr>]
   \<and> get_filename ascii_isalnum ascii_isspace
         \<lparr>name = ''Main'', source = ''print('hi')'', script_type = ''Script'',
          parent_path = ''Workspace/Workspace''\<rparr> = ''Main.server.lua''
   \<and> get_full_path ascii_isalnum ascii_isspace
         \<lparr>name = ''Main'', source = ''print('hi')'', script_type = ''Script'',
          parent_path = ''Workspace/Workspace''\<rparr> = ''Workspace/Workspace/Main.server.lua''"
proof (intro conjI)
  let ?root = "Element t ((''class'', ''DataModel'') # a) x [example_workspace]"
  have root_path: "current_path ?root [] = ''Workspace''"
    by (simp add: current_path_def example_workspace_names get_default_def script_classes_def)
  have root_own: "own_script ascii_isspace ?root [] = None"
    by (simp add: own_script_def get_default_def script_classes_def)
  have ws: "parse_element ascii_isspace example_workspace ''Workspace'' [] =
     [\<lparr>name = ''Main'', source = ''print('hi')'', script_type = ''Script'',
       parent_path = ''Workspace/Workspace''\<rparr>]"
    by code_simp
  show "parse_element ascii_isspace ?root [] [] =
     [\<lparr>name = ''Main'', source = ''print('hi')'', script_type = ''Script'',
       parent_path = ''Workspace/Workspace''\<rparr>]"
    by (subst parse_element_unfold) (simp add: root_path root_own ws)
  show "get_filename ascii_isalnum ascii_isspace
         \<lparr>name = ''Main'', source = ''print('hi')'', script_type = ''Script'',
          parent_path = ''Workspace/Workspace''\<rparr> = ''Main.server.lua''"
    by code_simp
  show "get_full_path ascii_isalnum ascii_isspace
         \<lparr>name = ''Main'', source = ''print('hi')'', script_type = ''Script'',
          parent_path = ''Workspace/Workspace''\<rparr> = ''Workspace/Workspace/Main.server.lua''"
    by code_simp
qed

subsection \<open>Scripts add nothing to the path\<close>

text \<open>
  Claim C3, as stated, fails in its last sentence: in the model file \<open>nested_root\<close> the
  ModuleScript \<open>Helper\<close> lies under the Script \<open>Main\<close>, and its parent path is
  \<^verbatim>\<open>Main\<close>, the name of that script. The segment comes from the root, whose name is resolved to the first
  \<^verbatim>\<open>Name\<close> below it.
\<close>

theorem script_ancestor_name_in_path:
  "([nested_root, nested_main], nested_helper) \<in> set (with_ancestors [] nested_root)
   \<and> get_default nested_main ''class'' [] = ''Script''
   \<and> get_element_name nested_main = ''Main''
   \<and> own_script ascii_isspace nested_helper ''Main'' =
       Some \<lparr>name = ''Helper'', source = ''return {}'', script_type = ''ModuleScript'',
             parent_path = ''Main''\<rparr>
   \<and> parse_element ascii_isspace nested_root [] [] =
       [\<lparr>name = ''Main'', source = ''return {}'', script_type = ''Script'', parent_path = ''Main''\<rparr>,
        \<lparr>name = ''Helper'', source = ''return {}'', script_type = ''ModuleScript'',
          parent_path = ''Main''\<rparr>]"
  by code_simp

lemma current_path_eq:
  "current_path e p =
     (if get_default e ''class'' [] \<notin> set script_classes \<and> get_element_name e \<noteq> []
      then (if p \<noteq> [] then os_path_join p (get_element_name e) else get_element_name e)
      else p)"
  by (simp add: current_path_def Let_def)

lemma path_at_segments:
  "path_at p0 ancs = join_segments p0 (map get_element_name (filter contributes ancs))"
proof (induction ancs rule: rev_induct)
  case Nil
  show ?case by (simp add: path_at_def join_segments_def)
next
  case (snoc a ancs)
  have "path_at p0 (ancs @ [a]) = current_path a (path_at p0 ancs)"
    by (rule path_at_snoc)
  also have "\<dots> = current_path a (join_segments p0 (map get_element_name (filter contributes ancs)))"
    by (simp only: snoc.IH)
  also have "\<dots> = join_segments p0 (map get_element_name (filter contributes (ancs @ [a])))"
    by (simp add: current_path_eq contributes_def join_segments_def)
  finally show ?case .
qed

text \<open>
  Claim C3, amended. The path passed to the children of an element is the parent path joined
  with the resolved name of the element (the name alone when the parent path is empty) when
  the element is not of a script class and its name is not empty, and the parent path
  unchanged otherwise; the join adds the name as a new segment after a separator unless the
  name starts with the separator or the path ends with it. Consequently the parent path of
  every record is made of the names of those of its ancestors that are not scripts and have
  a name that is not empty, from the root down: an ancestor that is a script adds no
  segment.
\<close>

theorem script_ancestors_add_no_segment:
  "current_path e p =
     (if get_default e ''class'' [] \<notin> set script_classes \<and> get_element_name e \<noteq> []
      then (if p \<noteq> [] then os_path_join p (get_element_name e) else get_element_name e)
      else p)
   \<and> (nm \<noteq> [] \<and> hd nm \<noteq> CHR ''/'' \<and> p \<noteq> [] \<and> last p \<noteq> CHR ''/'' \<longrightarrow>
        os_path_join p nm = p @ ''/'' @ nm)
   \<and> (\<forall>r \<in> set (parse_element isspace root p0 []).
         \<exists>ancs n. (ancs, n) \<in> set (with_ancestors [] root)
           \<and> own_script isspace n (parent_path r) = Some r
           \<and> parent_path r =
               join_segments p0 (map get_element_name (filter contributes ancs)))"
proof (intro conjI impI ballI)
  show "current_path e p =
     (if get_default e ''class'' [] \<notin> set script_classes \<and> get_element_name e \<noteq> []
      then (if p \<noteq> [] then os_path_join p (get_element_name e) else get_element_name e)
      else p)"
    by (rule current_path_eq)
  show "os_path_join p nm = p @ ''/'' @ nm"
    if "nm \<noteq> [] \<and> hd nm \<noteq> CHR ''/'' \<and> p \<noteq> [] \<and> last p \<noteq> CHR ''/''"
    using that by (simp add: os_path_join_def)
  fix r assume "r \<in> set (parse_element isspace root p0 [])"
  then obtain ancs n where in_tree: "(ancs, n) \<in> set (with_ancestors [] root)"
    and own: "own_script isspace n (path_at p0 ancs) = Some r"
    using walk_record_origin by blast
  from own have "parent_path r = path_at p0 ancs"
    using own_script_source by blast
  with in_tree own path_at_segments [of p0 ancs]
  show "\<exists>ancs n. (ancs, n) \<in> set (with_ancestors [] root)
           \<and> own_script isspace n (parent_path r) = Some r
           \<and> parent_path r =
               join_segments p0 (map get_element_name (filter contributes ancs))"
    by auto
qed

theorem script_ancestors_add_no_segment_witness:
  "parse_element ascii_isspace nested_root [] [] =
     [\<lparr>name = ''Main'', source = ''return {}'', script_type = ''Script'', parent_path = ''Main''\<rparr>,
      \<lparr>name = ''Helper'', source = ''return {}'', script_type = ''ModuleScript'',
        parent_path = ''Main''\<rparr>]
   \<and> (\<exists>ancs n. (ancs, n) \<in> set (with_ancestors [] nested_root)
         \<and> own_script ascii_isspace n ''Main'' =
             Some \<lparr>name = ''Helper'', source = ''return {}'', script_type = ''ModuleScript'',
                   parent_path = ''Main''\<rparr>
         \<and> ''Main'' = join_segments [] (map get_element_name (filter contributes ancs)))
   \<and> filter contributes [nested_root, nested_main] = [nested_root]
   \<and> os_path_join ''Workspace'' ''Main'' = ''Workspace/Main''"
proof -
  let ?helper = "\<lparr>name = ''Helper'', source = ''return {}'', script_type = ''ModuleScript'',
      parent_path = ''Main''\<rparr>"
  have walk: "parse_element ascii_isspace nested_root [] [] =
     [\<lparr>name = ''Main'', source = ''return {}'', script_type = ''Script'', parent_path = ''Main''\<rparr>,
      ?helper]"
    by code_simp
  have mem: "?helper \<in> set (parse_element ascii_isspace nested_root [] [])"
    by (simp add: walk)
  have anc: "filter contributes [nested_root, nested_main] = [nested_root]"
    by code_simp
  note inst = script_ancestors_add_no_segment
    [where e = nested_main and p = "''Workspace''" and nm = "''Main''"
       and isspace = ascii_isspace and root = nested_root and ?p0.0 = "[]"]
  have join: "os_path_join ''Workspace'' ''Main'' = ''Workspace/Main''"
    using conjunct1 [OF conjunct2 [OF inst]] by simp
  have "\<exists>ancs n. (ancs, n) \<in> set (with_ancestors [] nested_root)
      \<and> own_script ascii_isspace n (parent_path ?helper) = Some ?helper
      \<and> parent_path ?helper = join_segments [] (map get_element_name (filter contributes ancs))"
    using bspec [OF conjunct2 [OF conjunct2 [OF inst]] mem] .
  then show ?thesis using walk anc join by simp
qed

end
